theory Spec2Isabelle
  imports Main
begin

section \<open>The twirest request engine (src/twirest/twirest.go)\<close>

subsection \<open>Request descriptors\<close>

text \<open>
  The request struct handed to \<^verbatim>\<open>Request\<close> is an \<^verbatim>\<open>interface{}\<close>; the
  engine inspects it in two ways: by type switch on its dynamic type, and by reflection
  over its fields (name, struct tag, kind, value).

  The constructors of \<open>reqtype\<close> are the struct types that twirest.go names in its type
  switches; \<open>OtherStruct n\<close> is any other struct type (named \<open>n\<close>), which every type
  switch sends to its \<^verbatim>\<open>default\<close> branch.
\<close>

datatype reqtype =
    DeleteNotification | DeleteOutgoingCallerId | DeleteRecording
  | DeleteParticipant | DeleteQueue
  | SendMessage | MakeCall | ModifyCall | CreateQueue | ChangeQueue
  | DeQueue | UpdateParticipant | UpdateOutgoingCallerId
  | CreateIncomingPhoneNumber | AddOutgoingCallerId
  | Messages | Calls | Accounts | Notifications | OutgoingCallerIds
  | Recordings | UsageRecords | Conferences | Participants
  | AvailablePhoneNumbers
  | Recording | Message | Call | QueueMember
  | OtherStruct string

text \<open>
  Modelled from the spec: the declarations of the request structs are not in twirest.go.
  The spec's data model gives a descriptor string fields, repeated-string fields
  (\<^verbatim>\<open>[]string\<close>, exported, so that \<^verbatim>\<open>Interface()\<close> and the type assertion in
  \<^verbatim>\<open>queryString\<close> succeed) and boolean control fields; each field has its declared
  name and its struct tag (empty when the declaration has none). A descriptor is
  therefore its dynamic type together with its fields in declaration order, so that
  the declarations are a parameter of every function below.
\<close>

datatype fvalue = VString string | VSlice "string list" | VBool bool

record field =
  fname :: string
  ftag :: string
  fval :: fvalue

record descriptor =
  rtype :: reqtype
  rfields :: "field list"

text \<open>
  \<^verbatim>\<open>reflect.Value.String()\<close>: the string itself for a value of kind String, and
  \<^verbatim>\<open>"<T Value>"\<close> for a value of any other type \<^verbatim>\<open>T\<close>.
\<close>

fun reflectString :: "fvalue \<Rightarrow> string" where
  "reflectString (VString s) = s"
| "reflectString (VSlice vs) = ''<[]string Value>''"
| "reflectString (VBool b) = ''<bool Value>''"

text \<open>
  Direct field selections \<^verbatim>\<open>reqSt.F\<close> inside a typed branch of a type switch. The Go
  compiler guarantees that the field is declared with that type; the zero value stands
  for a selection that would not compile.
\<close>

definition boolField :: "descriptor \<Rightarrow> string \<Rightarrow> bool" where
  "boolField d n =
     (case find (\<lambda>f. fname f = n) (rfields d) of
        Some f \<Rightarrow> (case fval f of VBool b \<Rightarrow> b | _ \<Rightarrow> False)
      | None \<Rightarrow> False)"

definition stringField :: "descriptor \<Rightarrow> string \<Rightarrow> string" where
  "stringField d n =
     (case find (\<lambda>f. fname f = n) (rfields d) of
        Some f \<Rightarrow> (case fval f of VString s \<Rightarrow> s | _ \<Rightarrow> [])
      | None \<Rightarrow> [])"

subsection \<open>Errors\<close>

text \<open>
  \<open>Errorf m\<close> is the error \<^verbatim>\<open>fmt.Errorf\<close> builds, with its message; the other two are
  the errors of the standard library's URL parser (inside \<^verbatim>\<open>http.NewRequest\<close>) and of
  the HTTP transport.
\<close>

datatype error = Errorf string | UrlParseError string | TransportError string

subsection \<open>Client construction\<close>

record TwilioClient =
  accountSid :: string
  authUser :: string
  authToken :: string

text \<open>
  \<^verbatim>\<open>NewClient(authBits ...string)\<close>. The \<^verbatim>\<open>http.Client\<close> it allocates is the
  transport, which is a parameter of \<open>Request\<close> below. The zero value of a string field
  that is not assigned is the empty string.
\<close>

definition NewClient :: "string list \<Rightarrow> error + TwilioClient" where
  "NewClient authBits =
     (if length authBits \<le> 1 \<or> length authBits > 3
      then Inl (Errorf ''2 or 3 arguments only'')
      else if length authBits = 2
      then Inr \<lparr>accountSid = authBits ! 0, authUser = [], authToken = authBits ! 1\<rparr>
      else Inr \<lparr>accountSid = authBits ! 0, authUser = authBits ! 1,
                authToken = authBits ! 2\<rparr>)"

subsection \<open>Query encoding\<close>

text \<open>
  \<^verbatim>\<open>url.QueryEscape\<close> of the Go standard library (net/url, mode
  \<^verbatim>\<open>encodeQueryComponent\<close>): letters, digits and \<^verbatim>\<open>- _ . ~\<close> are kept, a space
  becomes \<^verbatim>\<open>+\<close>, every other byte \<^verbatim>\<open>c\<close> becomes \<^verbatim>\<open>%\<close> followed by the two
  upper-case hexadecimal digits of \<^verbatim>\<open>c\<close>.
\<close>

definition upperhex :: string where
  "upperhex = ''0123456789ABCDEF''"

definition shouldEscape :: "char \<Rightarrow> bool" where
  "shouldEscape c =
     (let n = (of_char c :: nat) in
      if (97 \<le> n \<and> n \<le> 122) \<or> (65 \<le> n \<and> n \<le> 90) \<or> (48 \<le> n \<and> n \<le> 57)
      then False
      else if c = CHR ''-'' \<or> c = CHR ''_'' \<or> c = CHR ''.'' \<or> c = CHR ''~''
      then False
      else True)"

definition escapeByte :: "char \<Rightarrow> string" where
  "escapeByte c =
     (if shouldEscape c
      then (if c = CHR '' '' then ''+''
            else [CHR ''%'', upperhex ! ((of_char c :: nat) div 16),
                  upperhex ! ((of_char c :: nat) mod 16)])
      else [c])"

definition QueryEscape :: "string \<Rightarrow> string" where
  "QueryEscape s = concat (map escapeByte s)"

text \<open>The \<^verbatim>\<open>case\<close> list of the type switch in \<^verbatim>\<open>queryString\<close>.\<close>

definition queryCase :: "reqtype \<Rightarrow> bool" where
  "queryCase t \<longleftrightarrow>
     t \<in> {SendMessage, Messages, MakeCall, Calls, ModifyCall, Accounts,
          Notifications, OutgoingCallerIds, Recordings, UsageRecords,
          CreateQueue, ChangeQueue, DeQueue, CreateIncomingPhoneNumber,
          Conferences, Participants, AvailablePhoneNumbers}"

text \<open>
  The inner loop over the elements of a slice field:
  \<^verbatim>\<open>for _, v := range v2 { qryStr += tag + url.QueryEscape(v) + "&" }\<close>.
\<close>

fun sliceLoop :: "string \<Rightarrow> string list \<Rightarrow> string \<Rightarrow> string" where
  "sliceLoop tg [] qryStr = qryStr"
| "sliceLoop tg (v # v2) qryStr = sliceLoop tg v2 (qryStr @ tg @ QueryEscape v @ ''&'')"

text \<open>
  One iteration of the loop over the fields. The first \<^verbatim>\<open>if\<close> fires for a field of
  kind String with a tag and a value, the second for a field of kind Slice with a tag
  and at least one element; a boolean field passes both.
\<close>

fun fieldStep :: "field \<Rightarrow> string \<Rightarrow> string" where
  "fieldStep fld qryStr =
     (case fval fld of
        VString val \<Rightarrow>
          (if ftag fld \<noteq> [] \<and> val \<noteq> []
           then qryStr @ ftag fld @ QueryEscape val @ ''&''
           else qryStr)
      | VSlice v2 \<Rightarrow>
          (if ftag fld \<noteq> [] \<and> length v2 > 0
           then sliceLoop (ftag fld) v2 qryStr
           else qryStr)
      | VBool b \<Rightarrow> qryStr)"

fun fieldLoop :: "field list \<Rightarrow> string \<Rightarrow> string" where
  "fieldLoop [] qryStr = qryStr"
| "fieldLoop (fld # flds) qryStr = fieldLoop flds (fieldStep fld qryStr)"

text \<open>
  \<^verbatim>\<open>queryString\<close>: the loop runs for the types of the case list only; the last
  \<^verbatim>\<open>&\<close> is cut off a non-empty result (\<^verbatim>\<open>qryStr[:len(qryStr)-1]\<close>). Every other
  type takes the empty \<^verbatim>\<open>default\<close> branch and the result is the zero value.
\<close>

definition queryString :: "descriptor \<Rightarrow> string" where
  "queryString reqSt =
     (if queryCase (rtype reqSt)
      then (let qryStr = fieldLoop (rfields reqSt) []
            in if length qryStr > 0 then take (length qryStr - 1) qryStr else qryStr)
      else [])"

subsection \<open>URL construction\<close>

definition ApiVer :: string where
  "ApiVer = ''2010-04-01''"

text \<open>\<^verbatim>\<open>required(rs ...string)\<close>: the error for the first empty string, else nil.\<close>

fun required :: "string list \<Rightarrow> error option" where
  "required [] = None"
| "required (s # rs) =
     (if s = [] then Some (Errorf ''required field missing'') else required rs)"

text \<open>
  The map \<^verbatim>\<open>m\<close> from field names to (tag, value) pairs, filled in declaration
  order; a later field of the same name would overwrite an earlier one.
\<close>

fun fieldMap :: "field list \<Rightarrow> (string \<rightharpoonup> string \<times> string) \<Rightarrow> (string \<rightharpoonup> string \<times> string)" where
  "fieldMap [] m = m"
| "fieldMap (fld # flds) m =
     fieldMap flds (m(fname fld \<mapsto> (ftag fld, reflectString (fval fld))))"

text \<open>
  The first half of \<^verbatim>\<open>urlString\<close>: the base resource URL
  \<^verbatim>\<open>.../Accounts/{accSid}/{resource}/{Sid}/{subresource}/{CallSid}\<close> from the
  fields of the map that exist. An empty Sid sets the error, and the URL is built to
  the end all the same.
\<close>

definition urlBase :: "field list \<Rightarrow> string \<Rightarrow> string \<times> error option" where
  "urlBase flds accSid =
     (let url0 = ''https://api.twilio.com/'' @ ApiVer @ ''/Accounts'';
          m = fieldMap flds Map.empty;
          url1 = (case m ''resource'' of
                    Some fld \<Rightarrow> url0 @ ''/'' @ accSid @ fst fld
                  | None \<Rightarrow> url0);
          (url2, err) = (case m ''Sid'' of
                    Some fld \<Rightarrow> (url1 @ ''/'' @ snd fld, required [snd fld])
                  | None \<Rightarrow> (url1, None));
          url3 = (case m ''subresource'' of
                    Some fld \<Rightarrow> url2 @ fst fld
                  | None \<Rightarrow> url2);
          url4 = (case m ''CallSid'' of
                    Some fld \<Rightarrow> (if fst fld = [] then url3 @ ''/'' @ snd fld else url3)
                  | None \<Rightarrow> url3)
      in (url4, err))"

text \<open>
  The second half of \<^verbatim>\<open>urlString\<close>: the type switch that adds the additional or
  optional resources of some request types to the URL.
\<close>

definition urlSuffix :: "descriptor \<Rightarrow> string \<Rightarrow> string" where
  "urlSuffix reqSt url =
     (case rtype reqSt of
        Recording \<Rightarrow>
          (let url1 = (if \<not> boolField reqSt ''GetRecording'' then url @ ''.json'' else url)
           in if boolField reqSt ''GetRecording'' \<and> boolField reqSt ''GetMP3''
              then url1 @ ''.mp3'' else url1)
      | AvailablePhoneNumbers \<Rightarrow>
          (let url1 = (if stringField reqSt ''CountryCode'' \<noteq> []
                       then url @ ''/'' @ stringField reqSt ''CountryCode'' else url)
           in if stringField reqSt ''Type'' \<noteq> []
              then url1 @ ''/'' @ stringField reqSt ''Type'' else url1)
      | Message \<Rightarrow>
          (if boolField reqSt ''Media''
           then (if stringField reqSt ''MediaSid'' \<noteq> []
                 then url @ ''/Media'' @ ''/'' @ stringField reqSt ''MediaSid''
                 else url @ ''/Media'')
           else url)
      | Call \<Rightarrow>
          (if boolField reqSt ''Recordings'' then url @ ''/Recordings''
           else if boolField reqSt ''Notifications'' then url @ ''/Notifications''
           else url)
      | UsageRecords \<Rightarrow> url @ ''/'' @ stringField reqSt ''SubResource''
      | QueueMember \<Rightarrow>
          (if boolField reqSt ''Front'' \<and> stringField reqSt ''CallSid'' = []
           then url @ ''/Front'' else url)
      | DeQueue \<Rightarrow>
          (if boolField reqSt ''Front'' \<and> stringField reqSt ''CallSid'' = []
           then url @ ''/Front'' else url)
      | _ \<Rightarrow> url)"

text \<open>\<^verbatim>\<open>urlString\<close> returns the URL and the error together.\<close>

definition urlString :: "descriptor \<Rightarrow> string \<Rightarrow> string \<times> error option" where
  "urlString reqStruct accSid =
     (case urlBase (rfields reqStruct) accSid of
        (url, err) \<Rightarrow> (urlSuffix reqStruct url, err))"

subsection \<open>The HTTP request\<close>

text \<open>
  What the engine sets on an \<^verbatim>\<open>http.Request\<close>: method, URL, body (\<open>None\<close> for a
  nil body, \<open>Some s\<close> for a reader over \<open>s\<close>), the basic-auth credentials and the
  header.
\<close>

record httpReq =
  hmethod :: string
  hurl :: string
  hbody :: "string option"
  hauth :: "(string \<times> string) option"
  hheader :: "string \<rightharpoonup> string"

text \<open>
  \<^verbatim>\<open>http.NewRequest\<close> of the standard library fails exactly when its URL parser
  rejects the URL (the three methods used here are valid). The parser is the parameter
  \<open>parses\<close>.
\<close>

definition NewRequest :: "(string \<Rightarrow> bool) \<Rightarrow> string \<Rightarrow> string \<Rightarrow> string option \<Rightarrow> error + httpReq" where
  "NewRequest parses meth url body =
     (if parses url
      then Inr \<lparr>hmethod = meth, hurl = url, hbody = body, hauth = None, hheader = Map.empty\<rparr>
      else Inl (UrlParseError url))"

text \<open>The two \<^verbatim>\<open>case\<close> lists of the type switch in \<^verbatim>\<open>httpRequest\<close>.\<close>

definition deleteCase :: "reqtype \<Rightarrow> bool" where
  "deleteCase t \<longleftrightarrow>
     t \<in> {DeleteNotification, DeleteOutgoingCallerId,
          DeleteRecording, DeleteParticipant, DeleteQueue}"

definition postCase :: "reqtype \<Rightarrow> bool" where
  "postCase t \<longleftrightarrow>
     t \<in> {SendMessage, MakeCall, ModifyCall, CreateQueue, ChangeQueue,
          DeQueue, UpdateParticipant, UpdateOutgoingCallerId,
          CreateIncomingPhoneNumber, AddOutgoingCallerId}"

text \<open>
  \<^verbatim>\<open>httpRequest\<close>. A type of the first list is a DELETE, a type of the second a
  POST, both with the query string as the body; every other type takes the
  \<^verbatim>\<open>default\<close> branch and is a GET with the query string, if there is one, in the
  URL. Logging (\<^verbatim>\<open>logit\<close>) has no effect on the result and is left out.
\<close>

definition httpRequest :: "(string \<Rightarrow> bool) \<Rightarrow> descriptor \<Rightarrow> string \<Rightarrow> error + httpReq" where
  "httpRequest parses reqStruct accSid =
     (case urlString reqStruct accSid of
        (url, Some err) \<Rightarrow> Inl err
      | (url, None) \<Rightarrow>
          (let queryStr = queryString reqStruct;
               requestBody = Some queryStr
           in if deleteCase (rtype reqStruct)
              then NewRequest parses ''DELETE'' url requestBody
              else if postCase (rtype reqStruct)
              then NewRequest parses ''POST'' url requestBody
              else NewRequest parses ''GET''
                     (if queryStr \<noteq> [] then url @ ''?'' @ queryStr else url) None))"

subsection \<open>The response envelope and the client\<close>

text \<open>
  Modelled from the spec: the declaration of \<^verbatim>\<open>TwilioResponse\<close> is not in twirest.go.
  The envelope holds the HTTP status code, the provider's status code and an optional
  exception payload (code, detail text, info URL); the resource payloads, which nothing
  in twirest.go reads, are left out.
\<close>

record status =
  Http :: int
  Twilio :: int

record exception =
  Code :: int
  Detail :: string
  MoreInfo :: string

record TwilioResponse =
  Status :: status
  Exception :: "exception option"

definition emptyResponse :: TwilioResponse where
  "emptyResponse = \<lparr>Status = \<lparr>Http = 0, Twilio = 0\<rparr>, Exception = None\<rparr>"

text \<open>\<^verbatim>\<open>exceptionToErr\<close>: the message is \<^verbatim>\<open>fmt.Errorf("%s (%s)", Detail, MoreInfo)\<close>.\<close>

definition exceptionToErr :: "TwilioResponse \<Rightarrow> int \<times> error option" where
  "exceptionToErr twir =
     (case Exception twir of
        Some ex \<Rightarrow> (Code ex, Some (Errorf (Detail ex @ '' ('' @ MoreInfo ex @ '')'')))
      | None \<Rightarrow> (0, None))"

record httpResponse =
  StatusCode :: int
  Body :: string

text \<open>
  The world outside the engine: the URL parser of \<^verbatim>\<open>http.NewRequest\<close>, the transport
  behind \<^verbatim>\<open>httpclient.Do\<close> (an error, or a response with its status code and the
  bytes of its body), and \<^verbatim>\<open>xml.Unmarshal\<close> into an envelope (its error is dropped by
  \<^verbatim>\<open>Request\<close>, so it is a function from the body and the envelope to the envelope).
\<close>

record env =
  urlParses :: "string \<Rightarrow> bool"
  roundTrip :: "httpReq \<Rightarrow> error + httpResponse"
  xmlUnmarshal :: "string \<Rightarrow> TwilioResponse \<Rightarrow> TwilioResponse"

definition SetBasicAuth :: "string \<Rightarrow> string \<Rightarrow> httpReq \<Rightarrow> httpReq" where
  "SetBasicAuth username password r = r\<lparr>hauth := Some (username, password)\<rparr>"

definition HeaderSet :: "string \<Rightarrow> string \<Rightarrow> httpReq \<Rightarrow> httpReq" where
  "HeaderSet k v r = r\<lparr>hheader := (hheader r)(k \<mapsto> v)\<rparr>"

text \<open>
  Authentication and headers, as \<^verbatim>\<open>Request\<close> adds them to the request: the API
  key as user name when the client has one, the account id otherwise.
\<close>

definition authorize :: "TwilioClient \<Rightarrow> httpReq \<Rightarrow> httpReq" where
  "authorize twiClient httpReq0 =
     (let httpReq1 =
            (if authUser twiClient \<noteq> []
             then SetBasicAuth (authUser twiClient) (authToken twiClient) httpReq0
             else SetBasicAuth (accountSid twiClient) (authToken twiClient) httpReq0);
          httpReq2 = HeaderSet ''Content-Type'' ''application/x-www-form-urlencoded'' httpReq1
      in HeaderSet ''Accept'' ''*/*'' httpReq2)"

text \<open>
  \<^verbatim>\<open>Request\<close> returns the envelope and the error; the second component of the
  model's result lists the requests handed to the transport, in order. The envelope
  starts as the zero value; the status code is stored before the body is decoded, and
  the provider's code after it. Logging is left out here too.
\<close>

definition Request :: "env \<Rightarrow> TwilioClient \<Rightarrow> descriptor \<Rightarrow> (TwilioResponse \<times> error option) \<times> httpReq list" where
  "Request ev twiClient reqStruct =
     (let twiResp = emptyResponse
      in case httpRequest (urlParses ev) reqStruct (accountSid twiClient) of
           Inl err \<Rightarrow> ((twiResp, Some err), [])
         | Inr httpReq0 \<Rightarrow>
             (let httpReq = authorize twiClient httpReq0
              in case roundTrip ev httpReq of
                   Inl err \<Rightarrow> ((twiResp, Some err), [httpReq])
                 | Inr response \<Rightarrow>
                     (let twiResp1 = twiResp\<lparr>Status := (Status twiResp)\<lparr>Http := StatusCode response\<rparr>\<rparr>;
                          twiResp2 = xmlUnmarshal ev (Body response) twiResp1;
                          (code, err) = exceptionToErr twiResp2
                      in ((twiResp2\<lparr>Status := (Status twiResp2)\<lparr>Twilio := code\<rparr>\<rparr>, err),
                          [httpReq]))))"

section \<open>The specification's reading of the engine\<close>

subsection \<open>Query encoding\<close>

text \<open>
  The spec's query encoder (section 4.2), to be compared with \<open>queryString\<close>: a
  string field with a query tag and a non-empty value is one entry, the tag followed
  by the percent-encoded value; a repeated-string field with a query tag and a
  non-empty sequence is one such entry per element, in sequence order; every other
  field has no entry. The entries of the fields, in declaration order, are joined by
  \<^verbatim>\<open>&\<close>.
\<close>

definition specEntries :: "field \<Rightarrow> string list" where
  "specEntries f =
     (case fval f of
        VString v \<Rightarrow> (if ftag f \<noteq> [] \<and> v \<noteq> [] then [ftag f @ QueryEscape v] else [])
      | VSlice vs \<Rightarrow>
          (if ftag f \<noteq> [] \<and> vs \<noteq> [] then map (\<lambda>v. ftag f @ QueryEscape v) vs else [])
      | VBool b \<Rightarrow> [])"

fun joinAmp :: "string list \<Rightarrow> string" where
  "joinAmp [] = []"
| "joinAmp [e] = e"
| "joinAmp (e # es) = e @ ''&'' @ joinAmp es"

text \<open>The entries the encoder emits for a descriptor: none outside its case list.\<close>

definition emitted :: "descriptor \<Rightarrow> string list" where
  "emitted d = (if queryCase (rtype d) then concat (map specEntries (rfields d)) else [])"

text \<open>Entries as the loop writes them: each one followed by \<^verbatim>\<open>&\<close>.\<close>

definition terminated :: "string list \<Rightarrow> string" where
  "terminated es = concat (map (\<lambda>e. e @ ''&'') es)"

subsection \<open>URL construction\<close>

text \<open>
  The spec's URL builder (section 4.1, steps 1 to 5), to be compared with \<open>urlBase\<close>:
  a descriptor declares a path role when it has a field of that name, and the segments
  of the declared roles follow the API root in the fixed order resource, Sid,
  subresource, CallSid. The value of a role is read as the engine reads it (a string
  field's value is the string).
\<close>

definition roleField :: "field list \<Rightarrow> string \<Rightarrow> field option" where
  "roleField flds n = find (\<lambda>f. fname f = n) flds"

definition specPath :: "field list \<Rightarrow> string \<Rightarrow> string" where
  "specPath flds accountId =
     ''https://api.twilio.com/'' @ ''2010-04-01'' @ ''/Accounts''
     @ (case roleField flds ''resource'' of
          Some f \<Rightarrow> ''/'' @ accountId @ ftag f | None \<Rightarrow> [])
     @ (case roleField flds ''Sid'' of
          Some f \<Rightarrow> ''/'' @ reflectString (fval f) | None \<Rightarrow> [])
     @ (case roleField flds ''subresource'' of
          Some f \<Rightarrow> ftag f | None \<Rightarrow> [])
     @ (case roleField flds ''CallSid'' of
          Some f \<Rightarrow> (if ftag f = [] then ''/'' @ reflectString (fval f) else [])
        | None \<Rightarrow> [])"

section \<open>Examples\<close>

text \<open>
  A message to send, with a text that needs escaping, two media URLs and no recipient;
  and a struct type of a caller's own, outside every case list, with a tagged
  repeated-string field.
\<close>

definition exSendMessage :: descriptor where
  "exSendMessage =
     \<lparr>rtype = SendMessage,
      rfields =
        [\<lparr>fname = ''resource'', ftag = ''/Messages'', fval = VString []\<rparr>,
         \<lparr>fname = ''Text'', ftag = ''Body='', fval = VString ''a b&c''\<rparr>,
         \<lparr>fname = ''MediaUrl'', ftag = ''MediaUrl='', fval = VSlice [''http://x/1'', ''y'']\<rparr>,
         \<lparr>fname = ''From'', ftag = ''From='', fval = VString ''+123''\<rparr>,
         \<lparr>fname = ''To'', ftag = ''To='', fval = VString []\<rparr>]\<rparr>"

definition exTagged :: descriptor where
  "exTagged =
     \<lparr>rtype = OtherStruct ''Tagged'',
      rfields = [\<lparr>fname = ''Tags'', ftag = ''Tag='', fval = VSlice [''a'', ''b'']\<rparr>]\<rparr>"

text \<open>A list query with a recipient filter, a queue to delete, a recording to fetch (with
  its two flags), a queue member, and a message fetch whose Sid was left empty.\<close>

definition exMessages :: descriptor where
  "exMessages =
     \<lparr>rtype = Messages,
      rfields =
        [\<lparr>fname = ''resource'', ftag = ''/Messages'', fval = VString []\<rparr>,
         \<lparr>fname = ''To'', ftag = ''To='', fval = VString ''+1 55''\<rparr>,
         \<lparr>fname = ''From'', ftag = ''From='', fval = VString []\<rparr>]\<rparr>"

definition exDeleteQueue :: descriptor where
  "exDeleteQueue =
     \<lparr>rtype = DeleteQueue,
      rfields =
        [\<lparr>fname = ''resource'', ftag = ''/Queues'', fval = VString []\<rparr>,
         \<lparr>fname = ''Sid'', ftag = [], fval = VString ''QU1''\<rparr>]\<rparr>"

definition exRecording :: "bool \<Rightarrow> bool \<Rightarrow> descriptor" where
  "exRecording getRecording getMP3 =
     \<lparr>rtype = Recording,
      rfields =
        [\<lparr>fname = ''resource'', ftag = ''/Recordings'', fval = VString []\<rparr>,
         \<lparr>fname = ''Sid'', ftag = [], fval = VString ''RE1''\<rparr>,
         \<lparr>fname = ''GetRecording'', ftag = [], fval = VBool getRecording\<rparr>,
         \<lparr>fname = ''GetMP3'', ftag = [], fval = VBool getMP3\<rparr>]\<rparr>"

definition exQueueMember :: descriptor where
  "exQueueMember =
     \<lparr>rtype = QueueMember,
      rfields =
        [\<lparr>fname = ''resource'', ftag = ''/Queues'', fval = VString []\<rparr>,
         \<lparr>fname = ''Sid'', ftag = [], fval = VString ''QU1''\<rparr>,
         \<lparr>fname = ''subresource'', ftag = ''/Members'', fval = VString []\<rparr>,
         \<lparr>fname = ''CallSid'', ftag = [], fval = VString ''CA1''\<rparr>,
         \<lparr>fname = ''Front'', ftag = [], fval = VBool True\<rparr>]\<rparr>"

definition exNoSid :: descriptor where
  "exNoSid =
     \<lparr>rtype = Message,
      rfields =
        [\<lparr>fname = ''resource'', ftag = ''/Messages'', fval = VString []\<rparr>,
         \<lparr>fname = ''Sid'', ftag = [], fval = VString []\<rparr>,
         \<lparr>fname = ''Media'', ftag = [], fval = VBool False\<rparr>,
         \<lparr>fname = ''MediaSid'', ftag = [], fval = VString []\<rparr>]\<rparr>"

text \<open>
  An example world: a URL parser that rejects ASCII control bytes, a transport that
  answers every request with the given response, and a decoder that finds the
  provider's exception in the one body that carries it and nothing in any other.
\<close>

definition exParses :: "string \<Rightarrow> bool" where
  "exParses u = list_all (\<lambda>c. 32 \<le> (of_char c :: nat) \<and> (of_char c :: nat) \<noteq> 127) u"

definition exException :: exception where
  "exException =
     \<lparr>Code = 20003, Detail = ''Authentication Error'',
      MoreInfo = ''https://www.example.com/errors''\<rparr>"

definition exErrorBody :: string where
  "exErrorBody =
     ''<TwilioResponse><RestException><Code>20003</Code><Detail>Authentication Error</Detail>''
     @ ''<MoreInfo>https://www.example.com/errors</MoreInfo></RestException></TwilioResponse>''"

definition exUnmarshal :: "string \<Rightarrow> TwilioResponse \<Rightarrow> TwilioResponse" where
  "exUnmarshal body r = (if body = exErrorBody then r\<lparr>Exception := Some exException\<rparr> else r)"

definition exEnv :: "httpResponse \<Rightarrow> env" where
  "exEnv resp = \<lparr>urlParses = exParses, roundTrip = (\<lambda>r. Inr resp), xmlUnmarshal = exUnmarshal\<rparr>"

definition exClient :: TwilioClient where
  "exClient = \<lparr>accountSid = ''AC1'', authUser = [], authToken = ''token''\<rparr>"




section \<open>Client construction\<close>

text \<open>
  C9. \<^verbatim>\<open>NewClient\<close> succeeds exactly when it is given two or three strings. With two
  (account id, auth token) the client has no auth user; with three (account id, API-key
  id, API-key secret) the key id is the auth user and the secret the token. With any
  other number of arguments it returns the error "2 or 3 arguments only" and no client.
\<close>

theorem NewClient_arity:
  "((\<exists>c. NewClient authBits = Inr c) \<longleftrightarrow> length authBits = 2 \<or> length authBits = 3)
   \<and> (length authBits \<noteq> 2 \<and> length authBits \<noteq> 3 \<longrightarrow>
        NewClient authBits = Inl (Errorf ''2 or 3 arguments only''))
   \<and> NewClient [a, t] = Inr \<lparr>accountSid = a, authUser = [], authToken = t\<rparr>
   \<and> NewClient [a, k, s] = Inr \<lparr>accountSid = a, authUser = k, authToken = s\<rparr>"
proof -
  have "length authBits \<le> 1 \<or> 3 < length authBits \<longleftrightarrow>
        \<not> (length authBits = 2 \<or> length authBits = 3)"
    by arith
  then show ?thesis
    by (auto simp: NewClient_def)
qed

theorem NewClient_arity_witness:
  "(\<exists>c. NewClient [''AC1'', ''token''] = Inr c)
   \<and> NewClient [''AC1''] = Inl (Errorf ''2 or 3 arguments only'')
   \<and> NewClient [] = Inl (Errorf ''2 or 3 arguments only'')
   \<and> NewClient [''AC1'', ''SK1'', ''secret'', ''extra''] = Inl (Errorf ''2 or 3 arguments only'')
   \<and> NewClient [''AC1'', ''SK1'', ''secret'']
       = Inr \<lparr>accountSid = ''AC1'', authUser = ''SK1'', authToken = ''secret''\<rparr>"
  using NewClient_arity [of "[''AC1'', ''token'']" "''AC1''" "''SK1''" "''SK1''" "''secret''"]
    NewClient_arity [of "[''AC1'']"] NewClient_arity [of "[]"]
    NewClient_arity [of "[''AC1'', ''SK1'', ''secret'', ''extra'']"]
  by simp

section \<open>Query encoding\<close>

subsection \<open>The loops of the encoder compute the joined entries\<close>

lemma sliceLoop_eq: "sliceLoop tg vs q = q @ terminated (map (\<lambda>v. tg @ QueryEscape v) vs)"
  by (induction vs arbitrary: q) (simp_all add: terminated_def)

lemma terminated_append: "terminated (xs @ ys) = terminated xs @ terminated ys"
  by (simp add: terminated_def)

lemma fieldStep_eq: "fieldStep f q = q @ terminated (specEntries f)"
  by (cases "fval f") (simp_all add: specEntries_def sliceLoop_eq terminated_def)

lemma fieldLoop_eq: "fieldLoop fs q = q @ terminated (concat (map specEntries fs))"
proof (induction fs arbitrary: q)
  case Nil
  show ?case by (simp add: terminated_def)
next
  case (Cons f fs)
  have "fieldLoop (f # fs) q = fieldLoop fs (fieldStep f q)" by simp
  also have "\<dots> = (q @ terminated (specEntries f)) @ terminated (concat (map specEntries fs))"
    by (simp only: Cons.IH fieldStep_eq)
  finally show ?case by (simp add: terminated_append)
qed

text \<open>Cutting the last byte off the terminated entries leaves them joined.\<close>

lemma trim_terminated:
  "(let s = terminated es in if length s > 0 then take (length s - 1) s else s) = joinAmp es"
proof (induction es rule: joinAmp.induct)
  case 1
  show ?case by (simp add: terminated_def)
next
  case (2 e)
  show ?case by (simp add: terminated_def)
next
  case (3 e e' es)
  have ne: "terminated (e' # es) \<noteq> []" by (simp add: terminated_def)
  have t: "terminated (e # e' # es) = (e @ ''&'') @ terminated (e' # es)"
    by (simp add: terminated_def)
  from 3 ne have ih:
    "take (length (terminated (e' # es)) - 1) (terminated (e' # es)) = joinAmp (e' # es)"
    by (simp add: Let_def)
  have "take (length (terminated (e # e' # es)) - 1) (terminated (e # e' # es))
        = (e @ ''&'') @ take (length (terminated (e' # es)) - 1) (terminated (e' # es))"
    using ne unfolding t by (cases "terminated (e' # es)") simp_all
  with ih ne show ?case by (simp add: Let_def t)
qed

lemma queryString_join: "queryString d = joinAmp (emitted d)"
  using trim_terminated [of "concat (map specEntries (rfields d))"]
  by (simp add: queryString_def emitted_def fieldLoop_eq Let_def)

subsection \<open>Percent-encoding leaves no separator and no space\<close>

lemma of_char_lt_256: "(of_char c :: nat) < 256"
  by (cases c) (simp add: of_char_Char horner_sum_simps)

lemma upperhex_nth: "n < 16 \<Longrightarrow> upperhex ! n \<in> set upperhex"
proof -
  assume "n < 16"
  moreover have "length upperhex = 16" by (simp add: upperhex_def)
  ultimately show ?thesis by (simp only: nth_mem)
qed

lemma upperhex_plain: "x \<in> set upperhex \<Longrightarrow> x \<noteq> CHR ''&'' \<and> x \<noteq> CHR '' ''"
  by (auto simp: upperhex_def)

lemma escapeByte_plain: "CHR ''&'' \<notin> set (escapeByte c) \<and> CHR '' '' \<notin> set (escapeByte c)"
proof (cases "shouldEscape c")
  case True
  have hi: "(of_char c :: nat) div 16 < 16" using of_char_lt_256 [of c] by arith
  have lo: "(of_char c :: nat) mod 16 < 16" by simp
  from upperhex_plain [OF upperhex_nth [OF hi]] upperhex_plain [OF upperhex_nth [OF lo]] True
  show ?thesis by (auto simp: escapeByte_def)
next
  case False
  then have "c \<noteq> CHR ''&'' \<and> c \<noteq> CHR '' ''"
    by (auto simp: shouldEscape_def Let_def)
  with False show ?thesis by (auto simp: escapeByte_def)
qed

lemma QueryEscape_plain: "CHR ''&'' \<notin> set (QueryEscape v) \<and> CHR '' '' \<notin> set (QueryEscape v)"
  using escapeByte_plain by (auto simp: QueryEscape_def)

subsection \<open>What the encoder omits and what it emits\<close>

lemma specEntries_omitted:
  "ftag f = [] \<or> fval f = VString [] \<or> fval f = VSlice [] \<Longrightarrow> specEntries f = []"
  by (auto simp: specEntries_def split: fvalue.splits)

lemma emitted_drop:
  "specEntries f = [] \<Longrightarrow> emitted (d\<lparr>rfields := xs @ f # ys\<rparr>) = emitted (d\<lparr>rfields := xs @ ys\<rparr>)"
  by (simp add: emitted_def)

lemma specEntries_tagged:
  "e \<in> set (specEntries f) \<Longrightarrow> \<exists>v. e = ftag f @ QueryEscape v"
  by (auto simp: specEntries_def split: fvalue.splits if_splits)

lemma emitted_tagged:
  "e \<in> set (emitted d) \<Longrightarrow> \<exists>f \<in> set (rfields d). \<exists>v. e = ftag f @ QueryEscape v"
  by (fastforce simp: emitted_def split: if_splits dest: specEntries_tagged)

lemma count_joinAmp:
  "(\<And>e. e \<in> set es \<Longrightarrow> c \<notin> set e) \<Longrightarrow> c = CHR ''&'' \<Longrightarrow> count_list (joinAmp es) c = length es - 1"
  by (induction es rule: joinAmp.induct) (simp_all add: count_list_0_iff)

lemma set_joinAmp: "set (joinAmp es) \<subseteq> \<Union> (set ` set es) \<union> {CHR ''&''}"
  by (induction es rule: joinAmp.induct) auto

lemma queryString_separators:
  assumes "\<forall>f \<in> set (rfields d). CHR ''&'' \<notin> set (ftag f)"
  shows "count_list (queryString d) (CHR ''&'') = length (emitted d) - 1"
proof -
  have "CHR ''&'' \<notin> set e" if "e \<in> set (emitted d)" for e
  proof -
    from emitted_tagged [OF that] obtain f v where "f \<in> set (rfields d)" "e = ftag f @ QueryEscape v"
      by blast
    with assms QueryEscape_plain [of v] show ?thesis by simp
  qed
  then show ?thesis by (simp add: queryString_join count_joinAmp)
qed

lemma queryString_no_space:
  assumes "\<forall>f \<in> set (rfields d). CHR '' '' \<notin> set (ftag f)"
  shows "CHR '' '' \<notin> set (queryString d)"
proof
  assume "CHR '' '' \<in> set (queryString d)"
  with set_joinAmp [of "emitted d"] obtain e where e: "e \<in> set (emitted d)" "CHR '' '' \<in> set e"
    by (auto simp: queryString_join)
  from emitted_tagged [OF e(1)] obtain f v where "f \<in> set (rfields d)" "e = ftag f @ QueryEscape v"
    by blast
  with assms QueryEscape_plain [of v] e(2) show False by simp
qed

lemma queryString_none:
  assumes "\<forall>f \<in> set (rfields d). ftag f = [] \<or> fval f = VString [] \<or> fval f = VSlice [] \<or> (\<exists>b. fval f = VBool b)"
  shows "queryString d = []"
proof -
  have "specEntries f = []" if "f \<in> set (rfields d)" for f
    using assms that by (auto simp: specEntries_def split: fvalue.splits)
  then have "concat (map specEntries (rfields d)) = []" by simp
  then have "emitted d = []" by (simp add: emitted_def)
  then show ?thesis by (simp add: queryString_join)
qed

text \<open>
  C2. The query encoder is a total function to strings, and for every descriptor:
  its output is the emitted entries joined by \<^verbatim>\<open>&\<close>, with no trailing separator;
  a field with no tag, with the empty string or with the empty sequence as its value
  contributes nothing (the output is the same with the field removed); a
  percent-encoded value contains neither \<^verbatim>\<open>&\<close> nor a space, so that, when no
  tag contains one, every \<^verbatim>\<open>&\<close> of the output is a separator between two entries
  and the output has no space; and the output is empty when no field qualifies.
\<close>

theorem queryString_encoding:
  "queryString d = joinAmp (emitted d)
   \<and> (ftag f = [] \<or> fval f = VString [] \<or> fval f = VSlice [] \<longrightarrow>
        queryString (d\<lparr>rfields := xs @ f # ys\<rparr>) = queryString (d\<lparr>rfields := xs @ ys\<rparr>))
   \<and> CHR ''&'' \<notin> set (QueryEscape v) \<and> CHR '' '' \<notin> set (QueryEscape v)
   \<and> ((\<forall>g \<in> set (rfields d). CHR ''&'' \<notin> set (ftag g)) \<longrightarrow>
        count_list (queryString d) (CHR ''&'') = length (emitted d) - 1)
   \<and> ((\<forall>g \<in> set (rfields d). CHR '' '' \<notin> set (ftag g)) \<longrightarrow>
        CHR '' '' \<notin> set (queryString d))
   \<and> ((\<forall>g \<in> set (rfields d). ftag g = [] \<or> fval g = VString [] \<or> fval g = VSlice []
          \<or> (\<exists>b. fval g = VBool b)) \<longrightarrow> queryString d = [])"
proof -
  have omit: "ftag f = [] \<or> fval f = VString [] \<or> fval f = VSlice [] \<longrightarrow>
        queryString (d\<lparr>rfields := xs @ f # ys\<rparr>) = queryString (d\<lparr>rfields := xs @ ys\<rparr>)"
  proof
    assume "ftag f = [] \<or> fval f = VString [] \<or> fval f = VSlice []"
    then have "specEntries f = []" by (rule specEntries_omitted)
    then have "emitted (d\<lparr>rfields := xs @ f # ys\<rparr>) = emitted (d\<lparr>rfields := xs @ ys\<rparr>)"
      by (rule emitted_drop)
    then show "queryString (d\<lparr>rfields := xs @ f # ys\<rparr>) = queryString (d\<lparr>rfields := xs @ ys\<rparr>)"
      by (simp only: queryString_join)
  qed
  show ?thesis
    using queryString_join [of d] omit QueryEscape_plain [of v] queryString_separators [of d]
      queryString_no_space [of d] queryString_none [of d]
    by blast
qed

text \<open>The encoder on the example message.\<close>

lemma exSendMessage_query:
  "queryString exSendMessage = ''Body=a+b%26c&MediaUrl=http%3A%2F%2Fx%2F1&MediaUrl=y&From=%2B123''"
  by code_simp

lemma exSendMessage_emitted:
  "emitted exSendMessage = [''Body=a+b%26c'', ''MediaUrl=http%3A%2F%2Fx%2F1'', ''MediaUrl=y'', ''From=%2B123'']"
  by code_simp

lemma QueryEscape_example: "QueryEscape ''a b&c'' = ''a+b%26c''"
  by code_simp

theorem queryString_encoding_witness:
  "queryString exSendMessage = joinAmp (emitted exSendMessage)
   \<and> queryString exSendMessage = ''Body=a+b%26c&MediaUrl=http%3A%2F%2Fx%2F1&MediaUrl=y&From=%2B123''
   \<and> queryString (exSendMessage\<lparr>rfields := take 4 (rfields exSendMessage) @ \<lparr>fname = ''To'', ftag = ''To='', fval = VString []\<rparr> # []\<rparr>)
       = queryString (exSendMessage\<lparr>rfields := take 4 (rfields exSendMessage) @ []\<rparr>)
   \<and> CHR ''&'' \<notin> set (QueryEscape ''a b&c'') \<and> CHR '' '' \<notin> set (QueryEscape ''a b&c'')
   \<and> QueryEscape ''a b&c'' = ''a+b%26c''
   \<and> count_list (queryString exSendMessage) (CHR ''&'') = 3
   \<and> CHR '' '' \<notin> set (queryString exSendMessage)
   \<and> queryString (exSendMessage\<lparr>rfields := [\<lparr>fname = ''To'', ftag = ''To='', fval = VString []\<rparr>]\<rparr>) = []"
proof -
  let ?to = "\<lparr>fname = ''To'', ftag = ''To='', fval = VString []\<rparr>"
  have amp: "\<forall>g \<in> set (rfields exSendMessage). CHR ''&'' \<notin> set (ftag g)"
    by (simp add: exSendMessage_def)
  have spc: "\<forall>g \<in> set (rfields exSendMessage). CHR '' '' \<notin> set (ftag g)"
    by (simp add: exSendMessage_def)
  note a = queryString_encoding [of exSendMessage ?to "take 4 (rfields exSendMessage)" "[]" "''a b&c''"]
  note b = queryString_encoding [of "exSendMessage\<lparr>rfields := [?to]\<rparr>" ?to "[]" "[]" "[]"]
  from a have a1: "queryString exSendMessage = joinAmp (emitted exSendMessage)"
    by blast
  from a have a2: "queryString (exSendMessage\<lparr>rfields := take 4 (rfields exSendMessage) @ ?to # []\<rparr>)
       = queryString (exSendMessage\<lparr>rfields := take 4 (rfields exSendMessage) @ []\<rparr>)"
    by simp
  from a have a3: "CHR ''&'' \<notin> set (QueryEscape ''a b&c'') \<and> CHR '' '' \<notin> set (QueryEscape ''a b&c'')"
    by blast
  from a amp have "count_list (queryString exSendMessage) (CHR ''&'') = length (emitted exSendMessage) - 1"
    by blast
  then have a4: "count_list (queryString exSendMessage) (CHR ''&'') = 3"
    by (simp add: exSendMessage_emitted)
  from a spc have a5: "CHR '' '' \<notin> set (queryString exSendMessage)"
    by blast
  have "\<forall>g \<in> set (rfields (exSendMessage\<lparr>rfields := [?to]\<rparr>)).
          ftag g = [] \<or> fval g = VString [] \<or> fval g = VSlice [] \<or> (\<exists>b. fval g = VBool b)"
    by simp
  with b have b6: "queryString (exSendMessage\<lparr>rfields := [?to]\<rparr>) = []"
    by blast
  from a1 a2 a3 a4 a5 b6 exSendMessage_query QueryEscape_example show ?thesis
    by blast
qed

text \<open>
  C3, as amended. For every descriptor whose type is in the case list of the query
  encoder: a repeated-string field with a query tag and a non-empty sequence is
  emitted as one entry per element, the tag followed by the percent-encoded element,
  in sequence order, between the entries of the fields declared before it and those of
  the fields declared after it.
\<close>

theorem queryString_repeated:
  assumes "queryCase (rtype d)" and "rfields d = xs @ f # ys"
    and "fval f = VSlice vs" and "vs \<noteq> []" and "ftag f \<noteq> []"
  shows "queryString d =
           joinAmp (concat (map specEntries xs) @ map (\<lambda>v. ftag f @ QueryEscape v) vs
                    @ concat (map specEntries ys))"
  using assms by (simp add: queryString_join emitted_def specEntries_def)

theorem queryString_repeated_witness:
  "queryString exSendMessage =
     joinAmp ([''Body=a+b%26c''] @ [''MediaUrl=http%3A%2F%2Fx%2F1'', ''MediaUrl=y'']
              @ [''From=%2B123''])"
proof -
  have "concat (map specEntries (take 2 (rfields exSendMessage))) = [''Body=a+b%26c'']"
    by code_simp
  moreover have "concat (map specEntries (drop 3 (rfields exSendMessage))) = [''From=%2B123'']"
    by code_simp
  moreover have "map (\<lambda>v. ''MediaUrl='' @ QueryEscape v) [''http://x/1'', ''y'']
      = [''MediaUrl=http%3A%2F%2Fx%2F1'', ''MediaUrl=y'']"
    by code_simp
  moreover have "queryCase (rtype exSendMessage)"
    by (simp add: exSendMessage_def queryCase_def)
  moreover have "rfields exSendMessage = take 2 (rfields exSendMessage)
      @ \<lparr>fname = ''MediaUrl'', ftag = ''MediaUrl='', fval = VSlice [''http://x/1'', ''y'']\<rparr>
      # drop 3 (rfields exSendMessage)"
    by (simp add: exSendMessage_def)
  ultimately show ?thesis
    using queryString_repeated [of exSendMessage "take 2 (rfields exSendMessage)"
      "\<lparr>fname = ''MediaUrl'', ftag = ''MediaUrl='', fval = VSlice [''http://x/1'', ''y'']\<rparr>"
      "drop 3 (rfields exSendMessage)" "[''http://x/1'', ''y'']"]
    by simp
qed

text \<open>
  Without the restriction to the case list the statement fails: a struct of any other
  type with a tagged, non-empty repeated-string field is encoded as the empty string.
\<close>

theorem queryString_repeated_counterexample:
  "\<not> queryCase (rtype exTagged)
   \<and> rfields exTagged = [] @ \<lparr>fname = ''Tags'', ftag = ''Tag='', fval = VSlice [''a'', ''b'']\<rparr> # []
   \<and> queryString exTagged = []
   \<and> joinAmp (concat (map specEntries [])
              @ [''Tag='' @ QueryEscape ''a'', ''Tag='' @ QueryEscape ''b'']
              @ concat (map specEntries [])) = ''Tag=a&Tag=b''
   \<and> queryString exTagged \<noteq> ''Tag=a&Tag=b''"
  by (simp add: exTagged_def queryString_def queryCase_def QueryEscape_def escapeByte_def
      shouldEscape_def)


section \<open>URL construction\<close>

lemma fieldMap_find:
  "distinct (map fname flds) \<Longrightarrow>
   fieldMap flds m n =
     (case find (\<lambda>f. fname f = n) flds of
        Some f \<Rightarrow> Some (ftag f, reflectString (fval f))
      | None \<Rightarrow> m n)"
proof (induction flds arbitrary: m)
  case Nil
  show ?case by simp
next
  case (Cons g flds)
  from Cons.prems have d: "distinct (map fname flds)" and g: "fname g \<notin> fname ` set flds"
    by simp_all
  show ?case
  proof (cases "fname g = n")
    case True
    have "\<not> (\<exists>x. x \<in> set flds \<and> fname x = n)"
    proof
      assume "\<exists>x. x \<in> set flds \<and> fname x = n"
      then obtain x where "x \<in> set flds" "fname x = n" by blast
      with True have "fname g \<in> fname ` set flds" by (simp add: image_iff) metis
      with g show False by simp
    qed
    then have "find (\<lambda>f. fname f = n) flds = None"
      by (simp add: find_None_iff)
    with True show ?thesis by (simp add: Cons.IH [OF d])
  next
    case False
    then show ?thesis by (simp add: Cons.IH [OF d] split: option.splits)
  qed
qed

lemma fieldMap_role:
  "distinct (map fname flds) \<Longrightarrow>
   fieldMap flds Map.empty n = map_option (\<lambda>f. (ftag f, reflectString (fval f))) (roleField flds n)"
  by (simp add: fieldMap_find roleField_def split: option.splits)

lemma urlBase_specPath:
  assumes "distinct (map fname flds)"
  shows "fst (urlBase flds acc) = specPath flds acc"
  by (simp add: urlBase_def specPath_def ApiVer_def Let_def fieldMap_role [OF assms]
      split: option.splits)

lemma urlSuffix_extends: "\<exists>sfx. urlSuffix d u = u @ sfx"
  by (cases "rtype d") (simp_all add: urlSuffix_def Let_def)

lemma urlString_fst: "fst (urlString d acc) = urlSuffix d (fst (urlBase (rfields d) acc))"
  by (simp add: urlString_def split: prod.splits)

lemma urlString_snd: "snd (urlString d acc) = snd (urlBase (rfields d) acc)"
  by (simp add: urlString_def split: prod.splits)

text \<open>
  C6. For every descriptor (its field names distinct, as in any struct) and account
  id, the base URL is the API root, the API version and \<^verbatim>\<open>/Accounts\<close>, followed
  by the segments of the declared path roles in the order resource (\<^verbatim>\<open>/\<close>, the
  account id and the tag), Sid (\<^verbatim>\<open>/\<close> and the value), subresource (the tag),
  CallSid (\<^verbatim>\<open>/\<close> and the value, when its tag is empty); the rules of the request's
  type apply after that and only append to it.
\<close>

theorem urlString_path:
  assumes "distinct (map fname (rfields d))"
  shows "fst (urlBase (rfields d) acc) = specPath (rfields d) acc
       \<and> fst (urlString d acc) = urlSuffix d (specPath (rfields d) acc)
       \<and> (\<exists>sfx. fst (urlString d acc) = specPath (rfields d) acc @ sfx)"
  using urlBase_specPath [OF assms, of acc] urlSuffix_extends [of d "specPath (rfields d) acc"]
  by (simp add: urlString_fst)

lemma exQueueMember_path:
  "specPath (rfields exQueueMember) ''AC1'' =
     ''https://api.twilio.com/2010-04-01/Accounts/AC1/Queues/QU1/Members/CA1''"
  by code_simp

lemma exQueueMember_distinct: "distinct (map fname (rfields exQueueMember))"
  by (simp add: exQueueMember_def)

theorem urlString_path_witness:
  "fst (urlBase (rfields exQueueMember) ''AC1'') =
     ''https://api.twilio.com/2010-04-01/Accounts/AC1/Queues/QU1/Members/CA1''
   \<and> (\<exists>sfx. fst (urlString exQueueMember ''AC1'') =
         ''https://api.twilio.com/2010-04-01/Accounts/AC1/Queues/QU1/Members/CA1'' @ sfx)"
proof -
  note p = urlString_path [OF exQueueMember_distinct, of "''AC1''"]
  from p have "fst (urlBase (rfields exQueueMember) ''AC1'') = specPath (rfields exQueueMember) ''AC1''"
    by (rule conjunct1)
  moreover from p have "\<exists>sfx. fst (urlString exQueueMember ''AC1'') = specPath (rfields exQueueMember) ''AC1'' @ sfx"
    by (rule conjunct2 [THEN conjunct2])
  ultimately show ?thesis
    by (simp only: exQueueMember_path)
qed

text \<open>
  C7. For a Recording descriptor the built URL is the base URL followed by
  \<^verbatim>\<open>.json\<close> when GetRecording is unset, by nothing when GetRecording is set and
  GetMP3 is not, and by \<^verbatim>\<open>.mp3\<close> when both are set.
\<close>

theorem urlString_Recording:
  assumes "rtype d = Recording"
  shows "(\<not> boolField d ''GetRecording'' \<longrightarrow>
            fst (urlString d acc) = fst (urlBase (rfields d) acc) @ ''.json'')
       \<and> (boolField d ''GetRecording'' \<and> \<not> boolField d ''GetMP3'' \<longrightarrow>
            fst (urlString d acc) = fst (urlBase (rfields d) acc))
       \<and> (boolField d ''GetRecording'' \<and> boolField d ''GetMP3'' \<longrightarrow>
            fst (urlString d acc) = fst (urlBase (rfields d) acc) @ ''.mp3'')"
  using assms by (simp add: urlString_fst urlSuffix_def)

lemma exRecording_base:
  "fst (urlBase (rfields (exRecording g m)) ''AC1'') =
     ''https://api.twilio.com/2010-04-01/Accounts/AC1/Recordings/RE1''"
  by (simp add: exRecording_def urlBase_def ApiVer_def)

lemma exRecording_flags:
  "boolField (exRecording g m) ''GetRecording'' = g" "boolField (exRecording g m) ''GetMP3'' = m"
  by (simp_all add: exRecording_def boolField_def)

theorem urlString_Recording_witness:
  "fst (urlString (exRecording False True) ''AC1'') =
     ''https://api.twilio.com/2010-04-01/Accounts/AC1/Recordings/RE1'' @ ''.json''
   \<and> fst (urlString (exRecording True False) ''AC1'') =
     ''https://api.twilio.com/2010-04-01/Accounts/AC1/Recordings/RE1''
   \<and> fst (urlString (exRecording True True) ''AC1'') =
     ''https://api.twilio.com/2010-04-01/Accounts/AC1/Recordings/RE1'' @ ''.mp3''"
proof -
  have t: "rtype (exRecording g m) = Recording" for g m
    by (simp add: exRecording_def)
  from urlString_Recording [OF t, of False True "''AC1''"]
    urlString_Recording [OF t, of True False "''AC1''"]
    urlString_Recording [OF t, of True True "''AC1''"]
  show ?thesis
    by (simp add: exRecording_flags exRecording_base)
qed

section \<open>The HTTP request\<close>

text \<open>The examples, evaluated.\<close>

lemma exSendMessage_url:
  "urlString exSendMessage ''AC1'' = (''https://api.twilio.com/2010-04-01/Accounts/AC1/Messages'', None)"
  by code_simp

lemma exMessages_url:
  "urlString exMessages ''AC1'' = (''https://api.twilio.com/2010-04-01/Accounts/AC1/Messages'', None)"
  by code_simp

lemma exMessages_query: "queryString exMessages = ''To=%2B1+55''"
  by code_simp

lemma exDeleteQueue_url:
  "urlString exDeleteQueue ''AC1'' = (''https://api.twilio.com/2010-04-01/Accounts/AC1/Queues/QU1'', None)"
  by code_simp

lemma exDeleteQueue_query: "queryString exDeleteQueue = []"
  by code_simp

lemma exParses_examples:
  "exParses ''https://api.twilio.com/2010-04-01/Accounts/AC1/Messages''"
  "exParses ''https://api.twilio.com/2010-04-01/Accounts/AC1/Messages?To=%2B1+55''"
  "exParses ''https://api.twilio.com/2010-04-01/Accounts/AC1/Messages?Body=a+b%26c&MediaUrl=http%3A%2F%2Fx%2F1&MediaUrl=y&From=%2B123''"
  "exParses ''https://api.twilio.com/2010-04-01/Accounts/AC1/Queues/QU1''"
  "exParses ''https://api.twilio.com/2010-04-01/Accounts/AC1/Queues/QU1?''"
  by code_simp+

lemma ex_rtypes:
  "rtype exSendMessage = SendMessage" "rtype exMessages = Messages" "rtype exDeleteQueue = DeleteQueue"
  by (simp_all add: exSendMessage_def exMessages_def exDeleteQueue_def)

lemma httpRequest_cases:
  assumes "httpRequest parses d acc = Inr req"
  shows "snd (urlString d acc) = None \<and> parses (hurl req) \<and> hauth req = None \<and> hheader req = Map.empty \<and>
     (if deleteCase (rtype d)
      then hmethod req = ''DELETE'' \<and> hurl req = fst (urlString d acc) \<and> hbody req = Some (queryString d)
      else if postCase (rtype d)
      then hmethod req = ''POST'' \<and> hurl req = fst (urlString d acc) \<and> hbody req = Some (queryString d)
      else hmethod req = ''GET'' \<and> hbody req = None \<and>
           hurl req = (if queryString d \<noteq> [] then fst (urlString d acc) @ ''?'' @ queryString d
                       else fst (urlString d acc)))"
proof (cases "urlString d acc")
  case (Pair u e)
  show ?thesis
  proof (cases e)
    case (Some err)
    with Pair assms show ?thesis by (simp add: httpRequest_def)
  next
    case None
    with Pair assms show ?thesis
      by (auto simp: httpRequest_def NewRequest_def Let_def split: if_splits) 
  qed
qed

lemma httpRequest_total:
  assumes "snd (urlString d acc) = None"
    and "parses (fst (urlString d acc))"
    and "parses (fst (urlString d acc) @ ''?'' @ queryString d)"
  shows "\<exists>req. httpRequest parses d acc = Inr req"
proof (cases "urlString d acc")
  case (Pair u e)
  with assms show ?thesis
    by (simp add: httpRequest_def NewRequest_def Let_def)
qed

lemma case_lists_disjoint: "\<not> (deleteCase t \<and> postCase t)"
  by (auto simp: deleteCase_def postCase_def)

text \<open>
  C4. The classification is total: whenever a request is built, its method is one of
  GET, POST and DELETE; it is DELETE exactly for the five delete types, POST exactly
  for the ten types of the POST list, and GET exactly for every other type. A request
  is built whenever the URL builder reports no error and the URL parser of
  \<^verbatim>\<open>http.NewRequest\<close> accepts the URL.
\<close>

theorem httpRequest_method:
  "(httpRequest parses d acc = Inr req \<longrightarrow>
       hmethod req \<in> {''GET'', ''POST'', ''DELETE''}
     \<and> (hmethod req = ''DELETE'' \<longleftrightarrow>
          rtype d \<in> {DeleteNotification, DeleteOutgoingCallerId, DeleteRecording,
                     DeleteParticipant, DeleteQueue})
     \<and> (hmethod req = ''POST'' \<longleftrightarrow>
          rtype d \<in> {SendMessage, MakeCall, ModifyCall, CreateQueue, ChangeQueue, DeQueue,
                     UpdateParticipant, AddOutgoingCallerId, UpdateOutgoingCallerId,
                     CreateIncomingPhoneNumber})
     \<and> (hmethod req = ''GET'' \<longleftrightarrow>
          rtype d \<notin> {DeleteNotification, DeleteOutgoingCallerId, DeleteRecording,
                     DeleteParticipant, DeleteQueue}
          \<and> rtype d \<notin> {SendMessage, MakeCall, ModifyCall, CreateQueue, ChangeQueue, DeQueue,
                     UpdateParticipant, AddOutgoingCallerId, UpdateOutgoingCallerId,
                     CreateIncomingPhoneNumber}))
   \<and> (snd (urlString d acc) = None \<and> parses (fst (urlString d acc))
        \<and> parses (fst (urlString d acc) @ ''?'' @ queryString d) \<longrightarrow>
        (\<exists>r. httpRequest parses d acc = Inr r))"
proof -
  have del: "deleteCase (rtype d) \<longleftrightarrow>
          rtype d \<in> {DeleteNotification, DeleteOutgoingCallerId, DeleteRecording,
                     DeleteParticipant, DeleteQueue}"
    by (simp add: deleteCase_def)
  have post: "postCase (rtype d) \<longleftrightarrow>
          rtype d \<in> {SendMessage, MakeCall, ModifyCall, CreateQueue, ChangeQueue, DeQueue,
                     UpdateParticipant, AddOutgoingCallerId, UpdateOutgoingCallerId,
                     CreateIncomingPhoneNumber}"
    by (auto simp: postCase_def)
  have m: "hmethod req \<in> {''GET'', ''POST'', ''DELETE''}
     \<and> (hmethod req = ''DELETE'' \<longleftrightarrow> deleteCase (rtype d))
     \<and> (hmethod req = ''POST'' \<longleftrightarrow> postCase (rtype d))
     \<and> (hmethod req = ''GET'' \<longleftrightarrow> \<not> deleteCase (rtype d) \<and> \<not> postCase (rtype d))"
    if "httpRequest parses d acc = Inr req"
    using httpRequest_cases [OF that] case_lists_disjoint [of "rtype d"]
    by (cases "deleteCase (rtype d)"; cases "postCase (rtype d)") simp_all
  show ?thesis
    using m httpRequest_total [of d acc parses] unfolding del post by blast
qed

theorem httpRequest_method_witness:
  "(\<exists>r. httpRequest exParses exSendMessage ''AC1'' = Inr r \<and> hmethod r = ''POST'')
   \<and> (\<exists>r. httpRequest exParses exDeleteQueue ''AC1'' = Inr r \<and> hmethod r = ''DELETE'')
   \<and> (\<exists>r. httpRequest exParses exMessages ''AC1'' = Inr r \<and> hmethod r = ''GET'')"
proof -
  from httpRequest_method [of exParses exSendMessage "''AC1''"]
  obtain r1 where r1: "httpRequest exParses exSendMessage ''AC1'' = Inr r1"
    by (auto simp: exSendMessage_url exSendMessage_query exParses_examples)
  from httpRequest_method [of exParses exSendMessage "''AC1''" r1] r1
  have m1: "hmethod r1 = ''POST''"
    by (simp add: ex_rtypes)
  from httpRequest_method [of exParses exDeleteQueue "''AC1''"]
  obtain r2 where r2: "httpRequest exParses exDeleteQueue ''AC1'' = Inr r2"
    by (auto simp: exDeleteQueue_url exDeleteQueue_query exParses_examples)
  from httpRequest_method [of exParses exDeleteQueue "''AC1''" r2] r2
  have m2: "hmethod r2 = ''DELETE''"
    by (simp add: ex_rtypes)
  from httpRequest_method [of exParses exMessages "''AC1''"]
  obtain r3 where r3: "httpRequest exParses exMessages ''AC1'' = Inr r3"
    by (auto simp: exMessages_url exMessages_query exParses_examples)
  from httpRequest_method [of exParses exMessages "''AC1''" r3] r3
  have m3: "hmethod r3 = ''GET''"
    by (simp add: ex_rtypes)
  from r1 m1 r2 m2 r3 m3 show ?thesis by blast
qed

text \<open>
  C5. A GET request has no body, and its URL is the built URL followed, when the query
  string is not empty, by \<^verbatim>\<open>?\<close> and the query string; a POST or DELETE request
  has the query string as its body and the built URL, with no query string, as its
  URL. A request is built whenever the URL builder reports no error and the URL
  parser accepts the URL.
\<close>

theorem httpRequest_placement:
  "(httpRequest parses d acc = Inr req \<longrightarrow>
      (hmethod req = ''GET'' \<longrightarrow>
         hbody req = None
         \<and> hurl req = (if queryString d \<noteq> [] then fst (urlString d acc) @ ''?'' @ queryString d
                       else fst (urlString d acc)))
    \<and> (hmethod req = ''POST'' \<or> hmethod req = ''DELETE'' \<longrightarrow>
         hbody req = Some (queryString d) \<and> hurl req = fst (urlString d acc)))
   \<and> (snd (urlString d acc) = None \<and> parses (fst (urlString d acc))
        \<and> parses (fst (urlString d acc) @ ''?'' @ queryString d) \<longrightarrow>
        (\<exists>r. httpRequest parses d acc = Inr r))"
proof -
  have p: "(hmethod req = ''GET'' \<longrightarrow>
         hbody req = None
         \<and> hurl req = (if queryString d \<noteq> [] then fst (urlString d acc) @ ''?'' @ queryString d
                       else fst (urlString d acc)))
    \<and> (hmethod req = ''POST'' \<or> hmethod req = ''DELETE'' \<longrightarrow>
         hbody req = Some (queryString d) \<and> hurl req = fst (urlString d acc))"
    if "httpRequest parses d acc = Inr req"
    using httpRequest_cases [OF that]
    by (cases "deleteCase (rtype d)"; cases "postCase (rtype d)") simp_all
  show ?thesis
    using p httpRequest_total [of d acc parses] by blast
qed

theorem httpRequest_placement_witness:
  "(\<exists>r. httpRequest exParses exMessages ''AC1'' = Inr r \<and> hmethod r = ''GET'' \<and> hbody r = None
        \<and> hurl r = ''https://api.twilio.com/2010-04-01/Accounts/AC1/Messages?To=%2B1+55'')
   \<and> (\<exists>r. httpRequest exParses exSendMessage ''AC1'' = Inr r \<and> hmethod r = ''POST''
        \<and> hbody r = Some ''Body=a+b%26c&MediaUrl=http%3A%2F%2Fx%2F1&MediaUrl=y&From=%2B123''
        \<and> hurl r = ''https://api.twilio.com/2010-04-01/Accounts/AC1/Messages'')
   \<and> (\<exists>r. httpRequest exParses exDeleteQueue ''AC1'' = Inr r \<and> hmethod r = ''DELETE''
        \<and> hbody r = Some [] \<and> hurl r = ''https://api.twilio.com/2010-04-01/Accounts/AC1/Queues/QU1'')"
proof -
  from httpRequest_placement [of exParses exMessages "''AC1''"]
  obtain r1 where r1: "httpRequest exParses exMessages ''AC1'' = Inr r1"
    by (auto simp: exMessages_url exMessages_query exParses_examples)
  from httpRequest_cases [OF r1] have m1: "hmethod r1 = ''GET''"
    by (simp add: ex_rtypes deleteCase_def postCase_def)
  from httpRequest_placement [of exParses exMessages "''AC1''" r1] r1 m1
  have p1: "hbody r1 = None
      \<and> hurl r1 = ''https://api.twilio.com/2010-04-01/Accounts/AC1/Messages?To=%2B1+55''"
    by (simp add: exMessages_url exMessages_query)
  from httpRequest_placement [of exParses exSendMessage "''AC1''"]
  obtain r2 where r2: "httpRequest exParses exSendMessage ''AC1'' = Inr r2"
    by (auto simp: exSendMessage_url exSendMessage_query exParses_examples)
  from httpRequest_cases [OF r2] have m2: "hmethod r2 = ''POST''"
    by (simp add: ex_rtypes deleteCase_def postCase_def)
  from httpRequest_placement [of exParses exSendMessage "''AC1''" r2] r2 m2
  have p2: "hbody r2 = Some ''Body=a+b%26c&MediaUrl=http%3A%2F%2Fx%2F1&MediaUrl=y&From=%2B123''
      \<and> hurl r2 = ''https://api.twilio.com/2010-04-01/Accounts/AC1/Messages''"
    by (simp add: exSendMessage_url exSendMessage_query)
  from httpRequest_placement [of exParses exDeleteQueue "''AC1''"]
  obtain r3 where r3: "httpRequest exParses exDeleteQueue ''AC1'' = Inr r3"
    by (auto simp: exDeleteQueue_url exDeleteQueue_query exParses_examples)
  from httpRequest_cases [OF r3] have m3: "hmethod r3 = ''DELETE''"
    by (simp add: ex_rtypes deleteCase_def postCase_def)
  from httpRequest_placement [of exParses exDeleteQueue "''AC1''" r3] r3 m3
  have p3: "hbody r3 = Some []
      \<and> hurl r3 = ''https://api.twilio.com/2010-04-01/Accounts/AC1/Queues/QU1''"
    by (simp add: exDeleteQueue_url exDeleteQueue_query)
  from r1 m1 p1 r2 m2 p2 r3 m3 p3 show ?thesis by blast
qed

text \<open>
  C10. The single-resource fetch types Message, Call, Recording, Queue and QueueMember
  and the five delete types are outside the case list of the query encoder; for every
  descriptor of a type outside the case list the query string is empty, whatever its
  fields hold, so that its request has the built URL with nothing appended and no
  body or an empty one.
\<close>

theorem queryString_outside_cases:
  "(t \<in> {Message, Call, Recording, QueueMember, OtherStruct ''Queue'', DeleteNotification,
          DeleteOutgoingCallerId, DeleteRecording, DeleteParticipant, DeleteQueue}
      \<longrightarrow> \<not> queryCase t)
   \<and> (\<not> queryCase (rtype d) \<longrightarrow>
        queryString d = []
      \<and> (httpRequest parses d acc = Inr req \<longrightarrow>
           hurl req = fst (urlString d acc) \<and> (hbody req = None \<or> hbody req = Some [])))"
proof -
  have a: "t \<in> {Message, Call, Recording, QueueMember, OtherStruct ''Queue'', DeleteNotification,
          DeleteOutgoingCallerId, DeleteRecording, DeleteParticipant, DeleteQueue}
      \<longrightarrow> \<not> queryCase t"
    by (auto simp: queryCase_def)
  have b: "hurl req = fst (urlString d acc) \<and> (hbody req = None \<or> hbody req = Some [])"
    if "queryString d = []" "httpRequest parses d acc = Inr req"
    using httpRequest_cases [OF that(2)] that(1)
    by (cases "deleteCase (rtype d)"; cases "postCase (rtype d)") simp_all
  show ?thesis
    using a b by (auto simp: queryString_def)
qed

lemma exDeleteQueue_request:
  "httpRequest exParses exDeleteQueue ''AC1'' =
     Inr \<lparr>hmethod = ''DELETE'', hurl = ''https://api.twilio.com/2010-04-01/Accounts/AC1/Queues/QU1'',
          hbody = Some [], hauth = None, hheader = Map.empty\<rparr>"
  by (simp add: httpRequest_def exDeleteQueue_url exDeleteQueue_query ex_rtypes deleteCase_def
      NewRequest_def exParses_examples)

theorem queryString_outside_cases_witness:
  "\<not> queryCase Recording \<and> \<not> queryCase (OtherStruct ''Queue'') \<and> \<not> queryCase DeleteQueue
   \<and> queryString exTagged = []
   \<and> queryString exDeleteQueue = []
   \<and> hurl \<lparr>hmethod = ''DELETE'', hurl = ''https://api.twilio.com/2010-04-01/Accounts/AC1/Queues/QU1'',
          hbody = Some [], hauth = None, hheader = Map.empty\<rparr> = fst (urlString exDeleteQueue ''AC1'')"
proof -
  have a: "\<not> queryCase Recording \<and> \<not> queryCase (OtherStruct ''Queue'') \<and> \<not> queryCase DeleteQueue"
    using queryString_outside_cases [of Recording] queryString_outside_cases [of "OtherStruct ''Queue''"]
      queryString_outside_cases [of DeleteQueue]
    by simp
  have t: "\<not> queryCase (rtype exTagged)"
    by (simp add: exTagged_def queryCase_def)
  with queryString_outside_cases [of Recording exTagged] have b: "queryString exTagged = []"
    by blast
  from a have q: "\<not> queryCase (rtype exDeleteQueue)"
    by (simp add: ex_rtypes)
  note c = queryString_outside_cases [of Recording exDeleteQueue exParses "''AC1''"
      "\<lparr>hmethod = ''DELETE'', hurl = ''https://api.twilio.com/2010-04-01/Accounts/AC1/Queues/QU1'',
          hbody = Some [], hauth = None, hheader = Map.empty\<rparr>"]
  from c q exDeleteQueue_request have
    "queryString exDeleteQueue = []
     \<and> hurl \<lparr>hmethod = ''DELETE'', hurl = ''https://api.twilio.com/2010-04-01/Accounts/AC1/Queues/QU1'',
          hbody = Some [], hauth = None, hheader = Map.empty\<rparr> = fst (urlString exDeleteQueue ''AC1'')"
    by blast
  with a b show ?thesis by blast
qed

section \<open>The client\<close>

lemma urlBase_empty_Sid:
  assumes "distinct (map fname flds)" and "f \<in> set flds" and "fname f = ''Sid''"
    and "fval f = VString []"
  shows "snd (urlBase flds acc) = Some (Errorf ''required field missing'')"
proof -
  from assms(2,3) obtain g where g: "find (\<lambda>f. fname f = ''Sid'') flds = Some g"
    by (cases "find (\<lambda>f. fname f = ''Sid'') flds") (auto simp: find_None_iff)
  then have "g \<in> set flds" "fname g = ''Sid''"
    by (auto simp: find_Some_iff)
  with assms(1,2,3) have "g = f"
    by (metis distinct_map inj_on_def)
  with g assms(4) have "fieldMap flds Map.empty ''Sid'' = Some (ftag f, [])"
    by (simp add: fieldMap_role [OF assms(1)] roleField_def)
  then show ?thesis
    by (simp add: urlBase_def Let_def split: option.splits)
qed

text \<open>
  C1. For every descriptor, of any type, that declares a Sid field whose value is the
  empty string: the URL builder reports "required field missing", no HTTP request is
  built, and \<^verbatim>\<open>Request\<close> returns that error with the zero envelope and hands no
  request to the transport.
\<close>

theorem Request_empty_Sid:
  assumes "distinct (map fname (rfields d))" and "f \<in> set (rfields d)"
    and "fname f = ''Sid''" and "fval f = VString []"
  shows "snd (urlString d acc) = Some (Errorf ''required field missing'')
       \<and> httpRequest parses d acc = Inl (Errorf ''required field missing'')
       \<and> Request ev c d = ((emptyResponse, Some (Errorf ''required field missing'')), [])"
proof -
  have u: "snd (urlString d a) = Some (Errorf ''required field missing'')" for a
    using urlBase_empty_Sid [OF assms] by (simp add: urlString_snd)
  have h: "httpRequest p d a = Inl (Errorf ''required field missing'')" for p a
    using u [of a] by (cases "urlString d a") (simp add: httpRequest_def)
  from u h show ?thesis by (simp add: Request_def)
qed

theorem Request_empty_Sid_witness:
  "snd (urlString exNoSid ''AC1'') = Some (Errorf ''required field missing'')
   \<and> httpRequest exParses exNoSid ''AC1'' = Inl (Errorf ''required field missing'')
   \<and> Request (exEnv \<lparr>StatusCode = 200, Body = []\<rparr>) exClient exNoSid
       = ((emptyResponse, Some (Errorf ''required field missing'')), [])"
proof -
  let ?sid = "\<lparr>fname = ''Sid'', ftag = [], fval = VString []\<rparr>"
  have "distinct (map fname (rfields exNoSid))" and "?sid \<in> set (rfields exNoSid)"
    and "fname ?sid = ''Sid''" and "fval ?sid = VString []"
    by (simp_all add: exNoSid_def)
  then show ?thesis
    by (rule Request_empty_Sid)
qed





end
